theory Spec2Isabelle
  imports Complex_Main "HOL-Library.AList"
begin

section \<open>Values of the Python runtime\<close>

text \<open>
  The module \<^verbatim>\<open>reloading.py\<close> keeps three process-wide tables, creates class objects
  and patches them in place. Class objects are kept in an explicit store, indexed by their
  address, since the claims speak about object identity. The values of a class body that
  the code inspects are strings (the entry \<^verbatim>\<open>__module__\<close>); every other value is opaque.
\<close>

datatype pyval = Str string | Obj nat

datatype error =
  KeyError | AttributeError | TypeError | OSError | IOError | RuntimeError | Raised

type_synonym addr = nat

type_synonym pydict = "(string \<times> pyval) list"

type_synonym ident = "string \<times> string"

text \<open>A module object: its name and its \<^verbatim>\<open>__file__\<close> attribute, which a module may lack.\<close>

datatype pymodule = Module (mod_name: string) (mod_file: "string option")

text \<open>The two metaclasses of the source, passed as \<^verbatim>\<open>mcs\<close> to \<^verbatim>\<open>__new__\<close>.\<close>

datatype metacls = Reloadable_metaclass | ReloMeta

record class_obj =
  cls_meta :: metacls
  cls_name :: string
  cls_bases :: "addr list"
  cls_dict :: "string \<rightharpoonup> pyval"

text \<open>
  What running a module's top-level code does, as far as this module can see it: a
  sequence of class statements, each handing \<^verbatim>\<open>(name, bases, dict)\<close> to its metaclass, and
  possibly an exception raised by the code itself. The class statements of a module that
  the code imports for the first time run as part of it, with their own \<^verbatim>\<open>__module__\<close>.
\<close>

datatype stmt = ClassDef metacls string "addr list" pydict | RaiseStmt

text \<open>
  The runtime and the operating system, as the module consults them: \<^verbatim>\<open>sys.modules\<close>,
  \<^verbatim>\<open>os.stat(p).st_mtime\<close> (\<open>None\<close> when \<^verbatim>\<open>os.stat\<close> raises \<^verbatim>\<open>OSError\<close>), whether
  \<^verbatim>\<open>os.open\<close> and the \<^verbatim>\<open>F_NOTIFY\<close> request succeed on a path, \<^verbatim>\<open>os.path.abspath\<close> (which
  depends on the working directory), the code that \<^verbatim>\<open>reload\<close> runs for a module, and what
  \<^verbatim>\<open>setattr\<close> on a class object raises for a name and a value, if anything: \<^verbatim>\<open>type\<close> makes some
  attributes of a class read-only (\<^verbatim>\<open>__dict__\<close>, \<^verbatim>\<open>__mro__\<close>) and checks the values of others.
\<close>

record env =
  sys_modules :: "string \<rightharpoonup> pymodule"
  stat_mtime :: "string \<rightharpoonup> real"
  can_open :: "string \<Rightarrow> bool"
  can_notify :: "string \<Rightarrow> bool"
  abspath :: "string \<Rightarrow> string"
  module_code :: "pymodule \<Rightarrow> stmt list"
  setattr_error :: "string \<Rightarrow> pyval \<Rightarrow> error option"

text \<open>
  The state of the process. The first three fields are the global tables of the source.
  \<open>reloadable_modules\<close> and \<open>dir_fds\<close> are dictionaries that the code iterates over or
  tests for emptiness, so they are association lists with unique keys, written with
  \<^const>\<open>AList.update\<close> (replace the value in place, or append a new key). The last four
  fields record the effects on the outside world: the next file descriptor \<^verbatim>\<open>os.open\<close>
  returns, the number of calls of \<^verbatim>\<open>signal.signal\<close>, the calls of \<^verbatim>\<open>reload\<close> (each with
  the mtime stored for the module when the call was made), and the exceptions handed to
  \<^verbatim>\<open>traceback.print_exc\<close>.
\<close>

record state =
  reloadable_classes :: "ident \<rightharpoonup> addr"
  reloadable_modules :: "(pymodule \<times> real \<times> string) list"
  dir_fds :: "(string \<times> nat) list"
  heap :: "addr \<Rightarrow> class_obj"
  next_addr :: addr
  next_fd :: nat
  sigio_installs :: nat
  reloads :: "(pymodule \<times> real option) list"
  printed :: "error list"

definition init_state :: state where
  "init_state =
     \<lparr>reloadable_classes = Map.empty, reloadable_modules = [], dir_fds = [],
      heap = (\<lambda>_. \<lparr>cls_meta = ReloMeta, cls_name = [], cls_bases = [], cls_dict = Map.empty\<rparr>),
      next_addr = 0, next_fd = 3, sigio_installs = 0, reloads = [], printed = []\<rparr>"

section \<open>Path functions of \<^verbatim>\<open>os.path\<close> (POSIX)\<close>

text \<open>\<^verbatim>\<open>p.rfind(c)\<close>: the index of the last occurrence of \<open>c\<close>, or \<open>-1\<close>.\<close>

fun rfind :: "char \<Rightarrow> string \<Rightarrow> int" where
  "rfind c [] = -1"
| "rfind c (x # xs) =
     (let r = rfind c xs in if r \<ge> 0 then r + 1 else if x = c then 0 else -1)"

text \<open>
  \<^verbatim>\<open>os.path.splitext\<close>: the extension starts at the last dot after the last slash, unless
  only dots stand between that slash and the dot.
\<close>

definition splitext :: "string \<Rightarrow> string \<times> string" where
  "splitext p =
     (let sepIndex = rfind CHR ''/'' p; dotIndex = rfind CHR ''.'' p in
      if dotIndex > sepIndex \<and>
         list_ex (\<lambda>c. c \<noteq> CHR ''.'')
           (take (nat (dotIndex - (sepIndex + 1))) (drop (nat (sepIndex + 1)) p))
      then (take (nat dotIndex) p, drop (nat dotIndex) p)
      else (p, []))"

text \<open>\<^verbatim>\<open>os.path.dirname\<close>: everything up to the last slash, trailing slashes stripped.\<close>

definition dirname_of :: "string \<Rightarrow> string" where
  "dirname_of p =
     (let i = nat (rfind CHR ''/'' p + 1); head = take i p in
      if head \<noteq> [] \<and> head \<noteq> replicate (length head) CHR ''/''
      then rev (dropWhile (\<lambda>c. c = CHR ''/'') (rev head))
      else head)"

text \<open>\<^verbatim>\<open>s.endswith(suffix)\<close>.\<close>

definition endswith :: "string \<Rightarrow> string \<Rightarrow> bool" where
  "endswith s suffix = (drop (length s - length suffix) s = suffix)"

section \<open>Watching modules and directories\<close>

text \<open>\<^verbatim>\<open>module_source\<close>: reading \<^verbatim>\<open>module.__file__\<close> raises when the attribute is missing.\<close>

definition module_source :: "pymodule \<Rightarrow> error + string" where
  "module_source modl =
     (case mod_file modl of
        None \<Rightarrow> Inl AttributeError
      | Some filename \<Rightarrow>
          (case splitext filename of
             (base, ext) \<Rightarrow>
               if ext = ''.pyc'' \<or> ext = ''.pyo'' then Inr (base @ ''.py'')
               else Inr filename))"

text \<open>
  \<^verbatim>\<open>watch_dir\<close>. The handler is installed before the directory is opened, and only when
  the table is empty; a failing \<^verbatim>\<open>os.open\<close> or \<^verbatim>\<open>fcntl\<close> leaves the table as it was.
\<close>

definition watch_dir :: "env \<Rightarrow> string \<Rightarrow> state \<Rightarrow> (error + unit) \<times> state" where
  "watch_dir env dirname0 s =
     (let dirname = abspath env dirname0 in
      if map_of (dir_fds s) dirname = None then
        (let s1 = (if dir_fds s = [] then s\<lparr>sigio_installs := Suc (sigio_installs s)\<rparr> else s) in
         if \<not> can_open env dirname then (Inl OSError, s1)
         else
           (let fd = next_fd s1; s2 = s1\<lparr>next_fd := Suc fd\<rparr> in
            if \<not> can_notify env dirname then (Inl IOError, s2)
            else (Inr (), s2\<lparr>dir_fds := AList.update dirname fd (dir_fds s2)\<rparr>)))
      else (Inr (), s))"

definition watch_module :: "env \<Rightarrow> pymodule \<Rightarrow> state \<Rightarrow> (error + unit) \<times> state" where
  "watch_module env modl s =
     (case module_source modl of
        Inl e \<Rightarrow> (Inl e, s)
      | Inr source \<Rightarrow>
          (let dirname = dirname_of source in
           case watch_dir env dirname s of
             (Inl e, s1) \<Rightarrow> (Inl e, s1)
           | (Inr _, s1) \<Rightarrow>
               (case stat_mtime env source of
                  None \<Rightarrow> (Inl OSError, s1)
                | Some mtime \<Rightarrow>
                    (Inr (),
                     s1\<lparr>reloadable_modules :=
                          AList.update modl (mtime, dirname) (reloadable_modules s1)\<rparr>))))"

section \<open>The metaclasses\<close>

text \<open>
  \<^verbatim>\<open>type.__new__(mcs, name, bases, dict)\<close> allocates a fresh class object whose attribute
  table is a copy of \<open>dict\<close>. \<^verbatim>\<open>setattr(cls, k, v)\<close> raises when the runtime refuses the
  assignment and leaves the object as it is; otherwise it stores \<open>v\<close> under \<open>k\<close> in the
  attribute table of the object at \<open>cls\<close>.
\<close>

definition type_new :: "metacls \<Rightarrow> string \<Rightarrow> addr list \<Rightarrow> pydict \<Rightarrow> state \<Rightarrow> addr \<times> state" where
  "type_new mcs name bases dict s =
     (next_addr s,
      s\<lparr>heap := (heap s)(next_addr s :=
            \<lparr>cls_meta = mcs, cls_name = name, cls_bases = bases, cls_dict = map_of dict\<rparr>),
        next_addr := Suc (next_addr s)\<rparr>)"

definition setattr :: "env \<Rightarrow> addr \<Rightarrow> string \<Rightarrow> pyval \<Rightarrow> state \<Rightarrow> (error + unit) \<times> state" where
  "setattr env cls k v s =
     (case setattr_error env k v of
        Some e \<Rightarrow> (Inl e, s)
      | None \<Rightarrow>
          (Inr (),
           s\<lparr>heap := (heap s)(cls :=
                 (heap s cls)\<lparr>cls_dict := (cls_dict (heap s cls))(k \<mapsto> v)\<rparr>)\<rparr>))"

text \<open>
  The loop \<^verbatim>\<open>for k, v in dict.iteritems(): setattr(old_class, k, v)\<close>: the first exception
  ends it, with the members before it already set.
\<close>

fun setattr_items :: "env \<Rightarrow> addr \<Rightarrow> pydict \<Rightarrow> state \<Rightarrow> (error + unit) \<times> state" where
  "setattr_items env old_class [] s = (Inr (), s)"
| "setattr_items env old_class ((k, v) # items) s =
     (case setattr env old_class k v s of
        (Inl e, s1) \<Rightarrow> (Inl e, s1)
      | (Inr _, s1) \<Rightarrow> setattr_items env old_class items s1)"

text \<open>\<^verbatim>\<open>Reloadable.__metaclass__.__new__\<close>.\<close>

definition Reloadable_metaclass_new ::
  "env \<Rightarrow> metacls \<Rightarrow> string \<Rightarrow> addr list \<Rightarrow> pydict \<Rightarrow> state \<Rightarrow> (error + addr) \<times> state" where
  "Reloadable_metaclass_new env mcs name bases dict s =
     (case map_of dict ''__module__'' of
        None \<Rightarrow> (Inl KeyError, s)
      | Some (Obj _) \<Rightarrow> (Inl AttributeError, s)
      | Some (Str modl) \<Rightarrow>
          if endswith modl ''reloading'' \<and> name = ''Reloadable'' then
            (case type_new mcs name bases dict s of (cls, s1) \<Rightarrow> (Inr cls, s1))
          else
            (case reloadable_classes s (modl, name) of
               None \<Rightarrow>
                 (case type_new mcs name bases dict s of
                    (cls, s1) \<Rightarrow>
                      (case sys_modules env modl of
                         None \<Rightarrow> (Inl KeyError, s1)
                       | Some m \<Rightarrow>
                           (case watch_module env m s1 of
                              (Inl e, s2) \<Rightarrow> (Inl e, s2)
                            | (Inr _, s2) \<Rightarrow>
                                (Inr cls,
                                 s2\<lparr>reloadable_classes :=
                                      (reloadable_classes s2)((modl, name) \<mapsto> cls)\<rparr>))))
             | Some old_class \<Rightarrow>
                 (case setattr_items env old_class dict s of
                    (Inl e, s1) \<Rightarrow> (Inl e, s1)
                  | (Inr _, s1) \<Rightarrow> (Inr old_class, s1))))"

text \<open>\<^verbatim>\<open>ReloMeta.__new__\<close>.\<close>

definition ReloMeta_new ::
  "env \<Rightarrow> metacls \<Rightarrow> string \<Rightarrow> addr list \<Rightarrow> pydict \<Rightarrow> state \<Rightarrow> (error + addr) \<times> state" where
  "ReloMeta_new env mcs name bases dict s =
     (case map_of dict ''__module__'' of
        None \<Rightarrow> (Inl KeyError, s)
      | Some (Obj _) \<Rightarrow> (Inl AttributeError, s)
      | Some (Str modl) \<Rightarrow>
          if endswith modl ''reloading'' \<and> name = ''Reloadable'' then
            (case type_new mcs name bases dict s of (cls, s1) \<Rightarrow> (Inr cls, s1))
          else
            (case reloadable_classes s (modl, name) of
               None \<Rightarrow>
                 (case type_new mcs name bases dict s of
                    (cls, s1) \<Rightarrow>
                      (case sys_modules env modl of
                         None \<Rightarrow> (Inl KeyError, s1)
                       | Some m \<Rightarrow>
                           (case watch_module env m s1 of
                              (Inl e, s2) \<Rightarrow> (Inl e, s2)
                            | (Inr _, s2) \<Rightarrow>
                                (Inr cls,
                                 s2\<lparr>reloadable_classes :=
                                      (reloadable_classes s2)((modl, name) \<mapsto> cls)\<rparr>))))
             | Some old_class \<Rightarrow>
                 (case setattr_items env old_class dict s of
                    (Inl e, s1) \<Rightarrow> (Inl e, s1)
                  | (Inr _, s1) \<Rightarrow> (Inr old_class, s1))))"

text \<open>A class statement calls the \<^verbatim>\<open>__new__\<close> of its metaclass.\<close>

definition class_stmt ::
  "env \<Rightarrow> metacls \<Rightarrow> string \<Rightarrow> addr list \<Rightarrow> pydict \<Rightarrow> state \<Rightarrow> (error + addr) \<times> state" where
  "class_stmt env mcs name bases dict s =
     (case mcs of
        Reloadable_metaclass \<Rightarrow> Reloadable_metaclass_new env mcs name bases dict s
      | ReloMeta \<Rightarrow> ReloMeta_new env mcs name bases dict s)"

section \<open>The signal handler\<close>

text \<open>Running top-level code stops at the first exception.\<close>

fun exec_stmts :: "env \<Rightarrow> stmt list \<Rightarrow> state \<Rightarrow> (error + unit) \<times> state" where
  "exec_stmts env [] s = (Inr (), s)"
| "exec_stmts env (RaiseStmt # rest) s = (Inl Raised, s)"
| "exec_stmts env (ClassDef mcs name bases dict # rest) s =
     (case class_stmt env mcs name bases dict s of
        (Inl e, s1) \<Rightarrow> (Inl e, s1)
      | (Inr _, s1) \<Rightarrow> exec_stmts env rest s1)"

text \<open>\<^verbatim>\<open>reload(module)\<close>, logged with the mtime stored for the module at the call.\<close>

definition reload :: "env \<Rightarrow> pymodule \<Rightarrow> state \<Rightarrow> (error + unit) \<times> state" where
  "reload env modl s =
     exec_stmts env (module_code env modl)
       (s\<lparr>reloads := reloads s @ [(modl, map_option fst (map_of (reloadable_modules s) modl))]\<rparr>)"

text \<open>
  The body of the loop of \<^verbatim>\<open>handle_sigio\<close> for one item of the table. Only \<^verbatim>\<open>OSError\<close> from
  \<^verbatim>\<open>os.stat\<close> is caught by the first \<^verbatim>\<open>try\<close>; the bare \<^verbatim>\<open>except\<close> around \<^verbatim>\<open>reload\<close> catches
  everything and prints it.
\<close>

definition sigio_step :: "env \<Rightarrow> pymodule \<times> real \<times> string \<Rightarrow> state \<Rightarrow> (error + unit) \<times> state" where
  "sigio_step env item s =
     (case item of
        (modl, mtime, dirname) \<Rightarrow>
          (case module_source modl of
             Inl e \<Rightarrow> (Inl e, s)
           | Inr source \<Rightarrow>
               (case stat_mtime env source of
                  None \<Rightarrow> (Inr (), s)
                | Some new_mtime \<Rightarrow>
                    if new_mtime > mtime then
                      (case reload env modl
                              (s\<lparr>reloadable_modules :=
                                   AList.update modl (new_mtime, dirname) (reloadable_modules s)\<rparr>) of
                         (Inl e, s2) \<Rightarrow> (Inr (), s2\<lparr>printed := printed s2 @ [e]\<rparr>)
                       | (Inr _, s2) \<Rightarrow> (Inr (), s2))
                    else (Inr (), s))))"

text \<open>
  The iteration \<^verbatim>\<open>for ... in reloadable_modules.iteritems()\<close> over a table of \<open>n\<close> items with
  \<open>k\<close> items still to visit. The iterator reads the table as it is now, and every call for
  its next item - also the last one, which ends the loop - first compares the size of the
  table with the size at the start and raises \<^verbatim>\<open>RuntimeError\<close> when they differ.
\<close>

fun sigio_loop :: "env \<Rightarrow> nat \<Rightarrow> nat \<Rightarrow> state \<Rightarrow> (error + unit) \<times> state" where
  "sigio_loop env n 0 s =
     (if length (reloadable_modules s) \<noteq> n then (Inl RuntimeError, s) else (Inr (), s))"
| "sigio_loop env n (Suc k) s =
     (if length (reloadable_modules s) \<noteq> n then (Inl RuntimeError, s)
      else
        (case sigio_step env (reloadable_modules s ! (n - Suc k)) s of
           (Inl e, s1) \<Rightarrow> (Inl e, s1)
         | (Inr _, s1) \<Rightarrow> sigio_loop env n k s1))"

definition handle_sigio :: "env \<Rightarrow> state \<Rightarrow> (error + unit) \<times> state" where
  "handle_sigio env s =
     sigio_loop env (length (reloadable_modules s)) (length (reloadable_modules s)) s"

section \<open>The weak class table\<close>

text \<open>
  \<open>reloadable_classes\<close> is a \<^verbatim>\<open>weakref.WeakValueDictionary\<close>: it does not keep its values
  alive. When the runtime reclaims the class object at \<open>a\<close>, after the last strong reference
  to it is gone, the dictionary discards every entry whose value it was.
\<close>

definition weak_discard :: "addr \<Rightarrow> state \<Rightarrow> state" where
  "weak_discard a s =
     s\<lparr>reloadable_classes :=
         (\<lambda>k. if reloadable_classes s k = Some a then None else reloadable_classes s k)\<rparr>"

section \<open>Runs of the process\<close>

text \<open>
  What happens to the tables during the life of the process: a class statement of a
  reloadable class, a delivery of \<^verbatim>\<open>SIGIO\<close>, a direct call of \<^verbatim>\<open>watch_module\<close> or
  \<^verbatim>\<open>watch_dir\<close>, and the reclamation of a class object. Each event meets the environment
  of its own moment, so files may change between events.
\<close>

datatype event =
    ClassStmt metacls string "addr list" pydict
  | Sigio
  | WatchModule pymodule
  | WatchDir string
  | Reclaim addr

fun run_event :: "env \<Rightarrow> event \<Rightarrow> state \<Rightarrow> state" where
  "run_event env (ClassStmt mcs name bases dict) s = snd (class_stmt env mcs name bases dict s)"
| "run_event env Sigio s = snd (handle_sigio env s)"
| "run_event env (WatchModule m) s = snd (watch_module env m s)"
| "run_event env (WatchDir d) s = snd (watch_dir env d s)"
| "run_event env (Reclaim a) s = weak_discard a s"

fun run_events :: "(env \<times> event) list \<Rightarrow> state \<Rightarrow> state" where
  "run_events [] s = s"
| "run_events ((env, e) # evs) s = run_events evs (run_event env e s)"

section \<open>Invariant and measures\<close>

text \<open>The runtime accepts the assignment of every member of a class body.\<close>

definition settable :: "env \<Rightarrow> pydict \<Rightarrow> bool" where
  "settable env dict \<longleftrightarrow> list_all (\<lambda>(k, v). setattr_error env k v = None) dict"

text \<open>The directory \<open>p\<close> is subscribed with descriptor \<open>fd\<close>, after \<open>n\<close> handler installs.\<close>

definition subscribed :: "string \<Rightarrow> nat \<Rightarrow> nat \<Rightarrow> state \<Rightarrow> bool" where
  "subscribed p fd n s \<longleftrightarrow> map_of (dir_fds s) p = Some fd \<and> sigio_installs s = n"

text \<open>The test that guards the base class \<^verbatim>\<open>Reloadable\<close> of the module itself.\<close>

definition foundational :: "string \<Rightarrow> string \<Rightarrow> bool" where
  "foundational modl name \<longleftrightarrow> endswith modl ''reloading'' \<and> name = ''Reloadable''"

text \<open>
  What holds of the tables in every state the process can reach: the module table has
  unique keys, as a dictionary has, and the class table has no entry for the base class.
\<close>

definition registry_inv :: "state \<Rightarrow> bool" where
  "registry_inv s \<longleftrightarrow>
     distinct (map fst (reloadable_modules s)) \<and>
     (\<forall>modl name. reloadable_classes s (modl, name) \<noteq> None \<longrightarrow> \<not> foundational modl name)"

text \<open>
  A watched module is stale when its source file is newer than the stored mtime: the
  condition under which the loop of \<^verbatim>\<open>handle_sigio\<close> reloads it.
\<close>

definition stale :: "env \<Rightarrow> state \<Rightarrow> pymodule \<Rightarrow> bool" where
  "stale env s m =
     (case module_source m of
        Inl _ \<Rightarrow> False
      | Inr source \<Rightarrow>
          (case stat_mtime env source of
             None \<Rightarrow> False
           | Some t \<Rightarrow>
               (case map_of (reloadable_modules s) m of
                  None \<Rightarrow> False
                | Some (mtime, _) \<Rightarrow> mtime < t)))"

text \<open>How often a module has been reloaded so far.\<close>

definition reload_count :: "pymodule \<Rightarrow> state \<Rightarrow> nat" where
  "reload_count m s = length (filter (\<lambda>e. fst e = m) (reloads s))"

text \<open>The reloads of a module so far, plus the one still due when it is stale.\<close>

definition credit :: "env \<Rightarrow> state \<Rightarrow> pymodule \<Rightarrow> nat" where
  "credit env s m = reload_count m s + (if stale env s m then 1 else 0)"

section \<open>Example inputs\<close>

text \<open>
  Three modules under \<^verbatim>\<open>/srv\<close>; \<^verbatim>\<open>app.foo\<close> was loaded from its compiled file. Two versions
  of the body of a class \<^verbatim>\<open>Foo\<close> of \<^verbatim>\<open>app.foo\<close>: the second drops the member \<^verbatim>\<open>b\<close>.
\<close>

definition mod_foo :: pymodule where
  "mod_foo = Module ''app.foo'' (Some ''/srv/app/foo.pyc'')"

definition mod_bar :: pymodule where
  "mod_bar = Module ''app.bar'' (Some ''/srv/app/bar.py'')"

definition mod_baz :: pymodule where
  "mod_baz = Module ''lib.baz'' (Some ''/srv/lib/baz.py'')"

definition body_v1 :: pydict where
  "body_v1 = [(''__module__'', Str ''app.foo''), (''a'', Obj 1), (''b'', Obj 2)]"

definition body_v2 :: pydict where
  "body_v2 = [(''__module__'', Str ''app.foo''), (''a'', Obj 3)]"

text \<open>A third body of \<^verbatim>\<open>Foo\<close>, which assigns \<^verbatim>\<open>__dict__\<close> between two ordinary members.\<close>

definition body_v3 :: pydict where
  "body_v3 =
     [(''__module__'', Str ''app.foo''), (''a'', Obj 3), (''__dict__'', Obj 9), (''c'', Obj 4)]"

definition body_bar :: pydict where
  "body_bar = [(''__module__'', Str ''app.bar'')]"

definition body_baz :: pydict where
  "body_baz = [(''__module__'', Str ''lib.baz'')]"


text \<open>
  All three source files exist and both directories can be watched; there is no
  directory \<^verbatim>\<open>/srv/nope\<close>, and \<^verbatim>\<open>/srv/nfs\<close> can be opened but its file system refuses the
  notification request. The runtime refuses to assign \<^verbatim>\<open>__dict__\<close> and \<^verbatim>\<open>__mro__\<close> of a class.
\<close>

definition env_a :: env where
  "env_a =
     \<lparr>sys_modules = [''app.foo'' \<mapsto> mod_foo, ''app.bar'' \<mapsto> mod_bar, ''lib.baz'' \<mapsto> mod_baz],
      stat_mtime = [''/srv/app/foo.py'' \<mapsto> 10, ''/srv/app/bar.py'' \<mapsto> 5, ''/srv/lib/baz.py'' \<mapsto> 10],
      can_open = (\<lambda>p. p = ''/srv/app'' \<or> p = ''/srv/lib'' \<or> p = ''/srv/nfs''),
      can_notify = (\<lambda>p. p = ''/srv/app'' \<or> p = ''/srv/lib''),
      abspath = (\<lambda>p. p),
      module_code = (\<lambda>m. []),
      setattr_error =
        (\<lambda>k v. if k = ''__dict__'' \<or> k = ''__mro__'' then Some AttributeError else None)\<rparr>"

text \<open>No source file can be read: only compiled files are installed.\<close>

definition env_missing :: env where
  "env_missing = env_a\<lparr>stat_mtime := Map.empty\<rparr>"

text \<open>\<^verbatim>\<open>foo.py\<close> has been edited: it now holds the second version of \<^verbatim>\<open>Foo\<close>.\<close>

definition env_edited :: env where
  "env_edited =
     env_a\<lparr>stat_mtime := (stat_mtime env_a)(''/srv/app/foo.py'' \<mapsto> 20),
       module_code :=
         (\<lambda>m. if m = mod_foo then [ClassDef Reloadable_metaclass ''Foo'' [] body_v2] else [])\<rparr>"

text \<open>
  \<^verbatim>\<open>foo.py\<close> and \<^verbatim>\<open>baz.py\<close> have been edited, and \<^verbatim>\<open>foo.py\<close> now imports \<^verbatim>\<open>app.bar\<close>, whose
  top-level code defines the reloadable class \<^verbatim>\<open>Bar\<close>.
\<close>

definition env_grow :: env where
  "env_grow =
     env_a\<lparr>stat_mtime :=
         (stat_mtime env_a)(''/srv/app/foo.py'' \<mapsto> 20, ''/srv/lib/baz.py'' \<mapsto> 20),
       module_code :=
         (\<lambda>m. if m = mod_foo then [ClassDef Reloadable_metaclass ''Bar'' [] body_bar] else [])\<rparr>"

text \<open>The process after the first definition of \<^verbatim>\<open>Foo\<close>, and after that of \<^verbatim>\<open>Baz\<close> too.\<close>

definition state_foo :: state where
  "state_foo = run_events [(env_a, ClassStmt Reloadable_metaclass ''Foo'' [] body_v1)] init_state"

definition state_two :: state where
  "state_two =
     run_events [(env_a, ClassStmt Reloadable_metaclass ''Foo'' [] body_v1),
                 (env_a, ClassStmt Reloadable_metaclass ''Baz'' [] body_baz)] init_state"

section \<open>Frame properties of the operations\<close>


lemma nth_map_of:
  "distinct (map fst xs) \<Longrightarrow> i < length xs \<Longrightarrow> map_of xs (fst (xs ! i)) = Some (snd (xs ! i))"
  by (simp add: map_of_eq_Some_iff)

lemma watch_dir_frame:
  assumes "watch_dir env d s = (r, s')"
  shows "reloadable_classes s' = reloadable_classes s"
    and "reloadable_modules s' = reloadable_modules s"
    and "heap s' = heap s"
    and "next_addr s' = next_addr s"
    and "reloads s' = reloads s"
    and "printed s' = printed s"
  using assms by (auto simp: watch_dir_def Let_def split: if_splits)

lemma watch_dir_subscribed:
  "watch_dir env d s = (Inr u, s') \<Longrightarrow> map_of (dir_fds s') (abspath env d) \<noteq> None"
  by (auto simp: watch_dir_def Let_def update_conv' split: if_splits)

lemma watch_dir_known:
  "map_of (dir_fds s) (abspath env d) \<noteq> None \<Longrightarrow> watch_dir env d s = (Inr (), s)"
  by (cases "map_of (dir_fds s) (abspath env d)") (simp_all add: watch_dir_def Let_def)

lemma watch_dir_installs:
  "sigio_installs (snd (watch_dir env d s)) =
     (if map_of (dir_fds s) (abspath env d) = None \<and> dir_fds s = []
      then Suc (sigio_installs s) else sigio_installs s)"
  by (simp add: watch_dir_def Let_def)

lemma watch_module_frame:
  assumes "watch_module env m s = (r, s')"
  shows "reloadable_classes s' = reloadable_classes s"
    and "heap s' = heap s"
    and "next_addr s' = next_addr s"
    and "reloads s' = reloads s"
    and "printed s' = printed s"
  using assms
  by (auto simp: watch_module_def Let_def split: sum.splits prod.splits option.splits
      dest: watch_dir_frame)

text \<open>\<^verbatim>\<open>watch_module\<close> writes the module table at most once, and then the current mtime.\<close>

lemma watch_module_modules:
  assumes "watch_module env m s = (r, s')"
  shows "reloadable_modules s' = reloadable_modules s \<or>
     (\<exists>src t. module_source m = Inr src \<and> stat_mtime env src = Some t \<and>
        reloadable_modules s' = AList.update m (t, dirname_of src) (reloadable_modules s))"
proof (cases "module_source m")
  case (Inl e)
  with assms show ?thesis by (simp add: watch_module_def)
next
  case (Inr src)
  obtain r1 s1 where w: "watch_dir env (dirname_of src) s = (r1, s1)"
    by (cases "watch_dir env (dirname_of src) s")
  note f = watch_dir_frame(2)[OF w]
  show ?thesis
    using assms Inr w f
    by (cases r1; cases "stat_mtime env src") (auto simp: watch_module_def)
qed

lemma watch_module_distinct:
  assumes "watch_module env m s = (r, s')" and "distinct (map fst (reloadable_modules s))"
  shows "distinct (map fst (reloadable_modules s'))"
  using watch_module_modules[OF assms(1)] assms(2) by (auto simp: distinct_update)

lemma type_new_frame:
  "reloadable_classes (snd (type_new mcs name bases dict s)) = reloadable_classes s"
  "reloadable_modules (snd (type_new mcs name bases dict s)) = reloadable_modules s"
  "dir_fds (snd (type_new mcs name bases dict s)) = dir_fds s"
  "reloads (snd (type_new mcs name bases dict s)) = reloads s"
  "printed (snd (type_new mcs name bases dict s)) = printed s"
  "sigio_installs (snd (type_new mcs name bases dict s)) = sigio_installs s"
  by (simp_all add: type_new_def)

text \<open>One round of the merge loop, with \<^verbatim>\<open>setattr\<close> unfolded.\<close>

lemma setattr_items_Cons:
  "setattr_items env a ((k, v) # items) s =
     (case setattr_error env k v of
        Some e \<Rightarrow> (Inl e, s)
      | None \<Rightarrow>
          setattr_items env a items
            (s\<lparr>heap := (heap s)(a :=
                  (heap s a)\<lparr>cls_dict := (cls_dict (heap s a))(k \<mapsto> v)\<rparr>)\<rparr>))"
  by (simp add: setattr_def split: option.splits)

lemma setattr_items_frame:
  "reloadable_classes (snd (setattr_items env a items s)) = reloadable_classes s"
  "reloadable_modules (snd (setattr_items env a items s)) = reloadable_modules s"
  "dir_fds (snd (setattr_items env a items s)) = dir_fds s"
  "next_addr (snd (setattr_items env a items s)) = next_addr s"
  "next_fd (snd (setattr_items env a items s)) = next_fd s"
  "sigio_installs (snd (setattr_items env a items s)) = sigio_installs s"
  "reloads (snd (setattr_items env a items s)) = reloads s"
  "printed (snd (setattr_items env a items s)) = printed s"
  by (induction items arbitrary: s;
      auto simp: setattr_items_Cons simp del: setattr_items.simps(2) split: option.splits)+

lemma setattr_items_other:
  "b \<noteq> a \<Longrightarrow> heap (snd (setattr_items env a items s)) b = heap s b"
  by (induction items arbitrary: s)
     (auto simp: setattr_items_Cons simp del: setattr_items.simps(2) split: option.splits)

lemma setattr_items_absent:
  "k \<notin> fst ` set items \<Longrightarrow>
     cls_dict (heap (snd (setattr_items env a items s)) a) k = cls_dict (heap s a) k"
  by (induction items arbitrary: s)
     (auto simp: setattr_items_Cons simp del: setattr_items.simps(2) split: option.splits)

lemma setattr_items_keeps:
  "cls_dict (heap s a) k \<noteq> None \<Longrightarrow>
     cls_dict (heap (snd (setattr_items env a items s)) a) k \<noteq> None"
proof (induction items arbitrary: s)
  case Nil
  then show ?case by simp
next
  case (Cons kv items)
  obtain k' v' where kv: "kv = (k', v')" by (cases kv)
  let ?s1 = "s\<lparr>heap := (heap s)(a :=
      (heap s a)\<lparr>cls_dict := (cls_dict (heap s a))(k' \<mapsto> v')\<rparr>)\<rparr>"
  have "cls_dict (heap ?s1 a) k \<noteq> None" using Cons.prems by simp
  from Cons.IH[OF this] Cons.prems show ?case
    by (simp add: kv setattr_items_Cons del: setattr_items.simps(2) split: option.splits)
qed

text \<open>The loop runs to its end exactly when the runtime accepts every assignment.\<close>

lemma setattr_items_returns:
  "fst (setattr_items env a items s) = Inr () \<longleftrightarrow> settable env items"
proof (induction items arbitrary: s)
  case Nil
  then show ?case by (simp add: settable_def)
next
  case (Cons kv items)
  obtain k' v' where kv: "kv = (k', v')" by (cases kv)
  show ?case
  proof (cases "setattr_error env k' v'")
    case None
    then show ?thesis
      using Cons.IH by (simp add: kv setattr_items_Cons settable_def del: setattr_items.simps(2))
  next
    case (Some e)
    then show ?thesis
      by (simp add: kv setattr_items_Cons settable_def del: setattr_items.simps(2))
  qed
qed

lemma setattr_items_present:
  "settable env items \<Longrightarrow> distinct (map fst items) \<Longrightarrow> (k, v) \<in> set items \<Longrightarrow>
     cls_dict (heap (snd (setattr_items env a items s)) a) k = Some v"
proof (induction items arbitrary: s)
  case Nil
  then show ?case by simp
next
  case (Cons kv items)
  obtain k' v' where kv: "kv = (k', v')" by (cases kv)
  let ?s1 = "s\<lparr>heap := (heap s)(a :=
      (heap s a)\<lparr>cls_dict := (cls_dict (heap s a))(k' \<mapsto> v')\<rparr>)\<rparr>"
  from Cons.prems(1) have ok: "setattr_error env k' v' = None" and rest: "settable env items"
    by (simp_all add: settable_def kv)
  then have step: "setattr_items env a (kv # items) s = setattr_items env a items ?s1"
    by (simp add: kv setattr_items_Cons del: setattr_items.simps(2))
  show ?case
  proof (cases "(k, v) = (k', v')")
    case True
    with Cons.prems(2) have "k \<notin> fst ` set items" by (auto simp: kv)
    then show ?thesis using True by (simp add: step setattr_items_absent)
  next
    case False
    with Cons.prems have "distinct (map fst items)" "(k, v) \<in> set items" by (auto simp: kv)
    from Cons.IH[OF rest this] show ?thesis by (simp add: step)
  qed
qed

section \<open>Class statements\<close>

lemma ReloMeta_new_eq:
  "ReloMeta_new env mcs name bases dict s = Reloadable_metaclass_new env mcs name bases dict s"
  by (simp add: Reloadable_metaclass_new_def ReloMeta_new_def)

lemma class_stmt_eq:
  "class_stmt env mcs name bases dict s = Reloadable_metaclass_new env mcs name bases dict s"
  by (cases mcs) (simp_all add: class_stmt_def ReloMeta_new_eq)

text \<open>The shapes of the state after a class statement.\<close>

lemma class_stmt_cases:
  assumes "class_stmt env mcs name bases dict s = (r, s')"
  obtains
    (unchanged) "s' = s"
  | (plain) "s' = snd (type_new mcs name bases dict s)"
  | (failed) m r1 where "watch_module env m (snd (type_new mcs name bases dict s)) = (r1, s')"
  | (stored) modl m r1 s2 where "map_of dict ''__module__'' = Some (Str modl)"
      "\<not> (endswith modl ''reloading'' \<and> name = ''Reloadable'')"
      "reloadable_classes s (modl, name) = None"
      "watch_module env m (snd (type_new mcs name bases dict s)) = (r1, s2)"
      "s' = s2\<lparr>reloadable_classes := (reloadable_classes s2)((modl, name) \<mapsto> next_addr s)\<rparr>"
  | (patched) old_class where "s' = snd (setattr_items env old_class dict s)"
  using assms unfolding class_stmt_eq Reloadable_metaclass_new_def
  by (auto simp: type_new_def split: option.splits pyval.splits if_splits sum.splits prod.splits)
     (metis snd_conv)+

lemma class_stmt_keeps_registered:
  assumes "class_stmt env mcs name bases dict s = (r, s')" and "reloadable_classes s k = Some a"
  shows "reloadable_classes s' k = Some a"
  using assms(1)
proof (cases rule: class_stmt_cases)
  case (stored modl m r1 s2)
  with assms(2) watch_module_frame(1)[OF stored(4)] show ?thesis
    by (auto simp: type_new_frame)
qed (use assms(2) in \<open>auto simp: type_new_frame setattr_items_frame dest: watch_module_frame(1)\<close>)

lemma class_stmt_reloads:
  assumes "class_stmt env mcs name bases dict s = (r, s')"
  shows "reloads s' = reloads s"
  using assms
  by (cases rule: class_stmt_cases)
     (auto simp: type_new_frame setattr_items_frame dest: watch_module_frame(4))

lemma class_stmt_inv:
  assumes "class_stmt env mcs name bases dict s = (r, s')" and "registry_inv s"
  shows "registry_inv s'"
  using assms(1)
proof (cases rule: class_stmt_cases)
  case (stored modl m r1 s2)
  from watch_module_distinct[OF stored(4)] assms(2)
  have "distinct (map fst (reloadable_modules s2))"
    by (simp add: registry_inv_def type_new_frame)
  moreover from watch_module_frame(1)[OF stored(4)]
  have "reloadable_classes s2 = reloadable_classes s" by (simp add: type_new_frame)
  ultimately show ?thesis
    using assms(2) stored(2) by (auto simp: registry_inv_def stored(5) foundational_def)
next
  case (failed m r1)
  from watch_module_distinct[OF failed] watch_module_frame(1)[OF failed] assms(2)
  show ?thesis by (simp add: registry_inv_def type_new_frame)
qed (use assms(2) in \<open>auto simp: registry_inv_def type_new_frame setattr_items_frame\<close>)

lemma stale_iff:
  "stale env s m \<longleftrightarrow>
     (\<exists>src t b d. module_source m = Inr src \<and> stat_mtime env src = Some t \<and>
        map_of (reloadable_modules s) m = Some (b, d) \<and> b < t)"
  by (auto simp: stale_def split: sum.splits option.splits)

lemma watch_module_not_stale:
  assumes "watch_module env m s = (r, s')" and "\<not> stale env s m0"
  shows "\<not> stale env s' m0"
  using watch_module_modules[OF assms(1)] assms(2)
  by (auto simp: stale_iff update_conv' split: if_splits)

lemma class_stmt_not_stale:
  assumes "class_stmt env mcs name bases dict s = (r, s')" and "\<not> stale env s m0"
  shows "\<not> stale env s' m0"
  using assms(1)
proof (cases rule: class_stmt_cases)
  case unchanged
  with assms(2) show ?thesis by simp
next
  case plain
  with assms(2) show ?thesis by (simp add: stale_iff type_new_frame)
next
  case (failed m r1)
  have "\<not> stale env (snd (type_new mcs name bases dict s)) m0"
    using assms(2) by (simp add: stale_iff type_new_frame)
  from watch_module_not_stale[OF failed this] show ?thesis .
next
  case (stored modl m r1 s2)
  have "\<not> stale env (snd (type_new mcs name bases dict s)) m0"
    using assms(2) by (simp add: stale_iff type_new_frame)
  from watch_module_not_stale[OF stored(4) this] show ?thesis
    by (simp add: stale_iff stored(5))
next
  case (patched old_class)
  with assms(2) show ?thesis by (simp add: stale_iff setattr_items_frame)
qed

section \<open>Reloading and the loop of the handler\<close>

text \<open>Whatever every class statement preserves, running top-level code preserves.\<close>

lemma exec_stmts_preserves:
  assumes step: "\<And>mcs name bases dict s r s'.
      class_stmt env mcs name bases dict s = (r, s') \<Longrightarrow> P s \<Longrightarrow> P s'"
    and "exec_stmts env stmts s = (r, s')" and "P s"
  shows "P s'"
  using assms(2,3)
proof (induction stmts arbitrary: s)
  case Nil
  then show ?case by simp
next
  case (Cons st rest)
  show ?case
  proof (cases st)
    case RaiseStmt
    with Cons.prems show ?thesis by simp
  next
    case (ClassDef mcs name bases dict)
    obtain r1 s1 where c: "class_stmt env mcs name bases dict s = (r1, s1)"
      by (cases "class_stmt env mcs name bases dict s")
    note p = step[OF c Cons.prems(2)]
    show ?thesis
    proof (cases r1)
      case (Inl e)
      with Cons.prems(1) ClassDef c p show ?thesis by simp
    next
      case (Inr a)
      with Cons.prems(1) ClassDef c have "exec_stmts env rest s1 = (r, s')" by simp
      from Cons.IH[OF this p] show ?thesis .
    qed
  qed
qed

lemma exec_stmts_reloads:
  assumes "exec_stmts env stmts s = (r, s')"
  shows "reloads s' = reloads s"
  by (rule exec_stmts_preserves[where P = "\<lambda>x. reloads x = reloads s", OF _ assms])
     (simp_all add: class_stmt_reloads)

lemma reload_reloads:
  "reload env m s = (r, s') \<Longrightarrow>
     reloads s' = reloads s @ [(m, map_option fst (map_of (reloadable_modules s) m))]"
  by (auto simp: reload_def dest: exec_stmts_reloads)

lemma reload_inv:
  assumes "reload env m s = (r, s')" and "registry_inv s"
  shows "registry_inv s'"
proof -
  let ?s0 = "s\<lparr>reloads := reloads s @ [(m, map_option fst (map_of (reloadable_modules s) m))]\<rparr>"
  have e: "exec_stmts env (module_code env m) ?s0 = (r, s')"
    using assms(1) by (simp add: reload_def)
  have i: "registry_inv ?s0" using assms(2) by (simp add: registry_inv_def)
  show ?thesis
    by (rule exec_stmts_preserves[where P = registry_inv, OF _ e i]) (erule (1) class_stmt_inv)
qed

lemma reload_not_stale:
  assumes "reload env m s = (r, s')" and "\<not> stale env s m0"
  shows "\<not> stale env s' m0"
proof -
  let ?s0 = "s\<lparr>reloads := reloads s @ [(m, map_option fst (map_of (reloadable_modules s) m))]\<rparr>"
  have e: "exec_stmts env (module_code env m) ?s0 = (r, s')"
    using assms(1) by (simp add: reload_def)
  have i: "\<not> stale env ?s0 m0" using assms(2) by (simp add: stale_iff)
  show ?thesis
    by (rule exec_stmts_preserves[where P = "\<lambda>x. \<not> stale env x m0", OF _ e i])
       (erule (1) class_stmt_not_stale)
qed

lemma reload_keeps_registered:
  assumes "reload env m s = (r, s')" and "reloadable_classes s k = Some a"
  shows "reloadable_classes s' k = Some a"
proof -
  let ?s0 = "s\<lparr>reloads := reloads s @ [(m, map_option fst (map_of (reloadable_modules s) m))]\<rparr>"
  have e: "exec_stmts env (module_code env m) ?s0 = (r, s')"
    using assms(1) by (simp add: reload_def)
  have i: "reloadable_classes ?s0 k = Some a" using assms(2) by simp
  show ?thesis
    by (rule exec_stmts_preserves[where P = "\<lambda>x. reloadable_classes x k = Some a", OF _ e i])
       (erule (1) class_stmt_keeps_registered)
qed

text \<open>The shapes of the state after one step of the loop.\<close>

lemma sigio_step_cases:
  assumes "sigio_step env (m, b, d) s = (r, s')"
  obtains
    (raised) e where "module_source m = Inl e" "r = Inl e" "s' = s"
  | (skipped) src where "module_source m = Inr src" "r = Inr ()" "s' = s"
      "\<not> (\<exists>t. stat_mtime env src = Some t \<and> b < t)"
  | (reloaded) src t r2 s2 where "module_source m = Inr src" "stat_mtime env src = Some t" "b < t"
      "reload env m (s\<lparr>reloadable_modules := AList.update m (t, d) (reloadable_modules s)\<rparr>) = (r2, s2)"
      "r = Inr ()" "s' = s2 \<or> (\<exists>e. s' = s2\<lparr>printed := printed s2 @ [e]\<rparr>)"
proof (cases "module_source m")
  case (Inl e)
  with assms raised show ?thesis by (simp add: sigio_step_def)
next
  case (Inr src)
  show ?thesis
  proof (cases "\<exists>t. stat_mtime env src = Some t \<and> b < t")
    case False
    with assms Inr have "r = Inr () \<and> s' = s"
      by (auto simp: sigio_step_def split: option.splits if_splits)
    then have "r = Inr ()" "s' = s" by blast+
    with skipped Inr False show ?thesis by blast
  next
    case True
    then obtain t where t: "stat_mtime env src = Some t" "b < t" by blast
    obtain r2 s2 where
      rl: "reload env m (s\<lparr>reloadable_modules := AList.update m (t, d) (reloadable_modules s)\<rparr>) = (r2, s2)"
      by (cases "reload env m (s\<lparr>reloadable_modules := AList.update m (t, d) (reloadable_modules s)\<rparr>)")
    from assms Inr t rl
    have "r = Inr () \<and> (s' = s2 \<or> (\<exists>e. s' = s2\<lparr>printed := printed s2 @ [e]\<rparr>))"
      by (cases r2) (auto simp: sigio_step_def)
    then have "r = Inr ()" "s' = s2 \<or> (\<exists>e. s' = s2\<lparr>printed := printed s2 @ [e]\<rparr>)"
      by blast+
    with reloaded Inr t rl show ?thesis by blast
  qed
qed

lemma sigio_step_inv:
  assumes "sigio_step env (m, b, d) s = (r, s')" and "registry_inv s"
  shows "registry_inv s'"
  using assms(1)
proof (cases rule: sigio_step_cases)
  case (reloaded src t r2 s2)
  have "registry_inv (s\<lparr>reloadable_modules := AList.update m (t, d) (reloadable_modules s)\<rparr>)"
    using assms(2) by (simp add: registry_inv_def distinct_update)
  from reload_inv[OF reloaded(4) this] reloaded(6) show ?thesis
    by (auto simp: registry_inv_def)
qed (use assms(2) in simp_all)

lemma sigio_step_keeps_registered:
  assumes "sigio_step env (m, b, d) s = (r, s')" and "reloadable_classes s k = Some a"
  shows "reloadable_classes s' k = Some a"
  using assms(1)
proof (cases rule: sigio_step_cases)
  case (reloaded src t r2 s2)
  have "reloadable_classes
      (s\<lparr>reloadable_modules := AList.update m (t, d) (reloadable_modules s)\<rparr>) k = Some a"
    using assms(2) by simp
  from reload_keeps_registered[OF reloaded(4) this] reloaded(6) show ?thesis
    by auto
qed (use assms(2) in simp_all)

text \<open>
  A step never raises the credit of a module: a reload of the module uses up the one
  that was due, and nothing the reloaded code does makes a module stale.
\<close>

lemma sigio_step_credit:
  assumes "sigio_step env (m, b, d) s = (r, s')"
    and "map_of (reloadable_modules s) m = Some (b, d)"
  shows "credit env s' m0 \<le> credit env s m0"
  using assms(1)
proof (cases rule: sigio_step_cases)
  case (reloaded src t r2 s2)
  let ?s1 = "s\<lparr>reloadable_modules := AList.update m (t, d) (reloadable_modules s)\<rparr>"
  have cnt: "reload_count m0 s' = reload_count m0 s + (if m0 = m then 1 else 0)"
    using reload_reloads[OF reloaded(4)] reloaded(6) by (auto simp: reload_count_def)
  have st: "stale env s' m0 = stale env s2 m0"
    using reloaded(6) by (auto simp: stale_iff)
  show ?thesis
  proof (cases "m0 = m")
    case True
    have "stale env s m" using assms(2) reloaded(1-3) by (auto simp: stale_iff)
    moreover have "\<not> stale env ?s1 m"
      using reloaded(1,2) by (auto simp: stale_iff update_conv')
    from reload_not_stale[OF reloaded(4) this] have "\<not> stale env s2 m" .
    ultimately show ?thesis using True cnt st by (simp add: credit_def)
  next
    case False
    have "stale env ?s1 m0 = stale env s m0"
      using False by (simp add: stale_iff update_conv')
    with reload_not_stale[OF reloaded(4), of m0] have "stale env s2 m0 \<Longrightarrow> stale env s m0"
      by blast
    then have "(if stale env s2 m0 then 1 else 0) \<le> (if stale env s m0 then 1 else (0::nat))"
      by simp
    then show ?thesis using False cnt st by (simp add: credit_def)
  qed
qed simp_all

text \<open>
  Whatever every step preserves, the loop preserves. A step is taken on an item that
  the table holds when the step begins.
\<close>

lemma sigio_loop_preserves:
  assumes step: "\<And>m b d s r s'. (m, b, d) \<in> set (reloadable_modules s) \<Longrightarrow>
      sigio_step env (m, b, d) s = (r, s') \<Longrightarrow> P s \<Longrightarrow> P s'"
    and "sigio_loop env n k s = (r, s')" and "P s" and "k \<le> n"
  shows "P s'"
  using assms(2-4)
proof (induction k arbitrary: s)
  case 0
  then show ?case by (auto split: if_splits)
next
  case (Suc k)
  show ?case
  proof (cases "length (reloadable_modules s) = n")
    case False
    with Suc.prems show ?thesis by simp
  next
    case True
    obtain m b d where item: "reloadable_modules s ! (n - Suc k) = (m, b, d)"
      by (cases "reloadable_modules s ! (n - Suc k)")
    obtain r1 s1 where st: "sigio_step env (m, b, d) s = (r1, s1)"
      by (cases "sigio_step env (m, b, d) s")
    have "n - Suc k < length (reloadable_modules s)"
      using True Suc.prems(3) by simp
    then have "(m, b, d) \<in> set (reloadable_modules s)"
      using item nth_mem by fastforce
    note p = step[OF this st Suc.prems(2)]
    show ?thesis
    proof (cases r1)
      case (Inl e)
      with Suc.prems(1) True item st p show ?thesis by simp
    next
      case (Inr u)
      with Suc.prems(1) True item st have "sigio_loop env n k s1 = (r, s')" by simp
      from Suc.IH[OF this p] Suc.prems(3) show ?thesis by simp
    qed
  qed
qed

lemma handle_sigio_preserves:
  assumes "\<And>m b d s r s'. (m, b, d) \<in> set (reloadable_modules s) \<Longrightarrow>
      sigio_step env (m, b, d) s = (r, s') \<Longrightarrow> P s \<Longrightarrow> P s'"
    and "P s"
  shows "P (snd (handle_sigio env s))"
  using sigio_loop_preserves[where P = P, OF assms(1) surjective_pairing assms(2) order_refl]
  by (simp add: handle_sigio_def)

lemma handle_sigio_inv:
  "registry_inv s \<Longrightarrow> registry_inv (snd (handle_sigio env s))"
  by (rule handle_sigio_preserves[where P = registry_inv]) (erule (1) sigio_step_inv)

lemma handle_sigio_keeps_registered:
  "reloadable_classes s k = Some a \<Longrightarrow> reloadable_classes (snd (handle_sigio env s)) k = Some a"
  by (rule handle_sigio_preserves[where P = "\<lambda>x. reloadable_classes x k = Some a"])
     (erule (1) sigio_step_keeps_registered)

lemma handle_sigio_credit:
  assumes "registry_inv s"
  shows "credit env (snd (handle_sigio env s)) m0 \<le> credit env s m0"
proof -
  let ?P = "\<lambda>x. registry_inv x \<and> credit env x m0 \<le> credit env s m0"
  have "?P (snd (handle_sigio env s))"
  proof (rule handle_sigio_preserves[where P = ?P])
    fix m b d x r x'
    assume item: "(m, b, d) \<in> set (reloadable_modules x)"
      and st: "sigio_step env (m, b, d) x = (r, x')" and p: "?P x"
    from p item have "map_of (reloadable_modules x) m = Some (b, d)"
      by (simp add: registry_inv_def)
    from sigio_step_credit[OF st this, of m0] sigio_step_inv[OF st] p show "?P x'"
      by simp
  next
    show "?P s" using assms by simp
  qed
  then show ?thesis by simp
qed

text \<open>With no file changed between them, two passes reload a module at most once.\<close>

lemma two_passes:
  assumes "registry_inv s"
  shows "reload_count m (snd (handle_sigio env (snd (handle_sigio env s)))) \<le> reload_count m s + 1"
proof -
  let ?s1 = "snd (handle_sigio env s)"
  let ?s2 = "snd (handle_sigio env ?s1)"
  have "reload_count m ?s2 \<le> credit env ?s2 m" by (simp add: credit_def)
  also have "\<dots> \<le> credit env ?s1 m"
    by (rule handle_sigio_credit[OF handle_sigio_inv[OF assms]])
  also have "\<dots> \<le> credit env s m" by (rule handle_sigio_credit[OF assms])
  also have "\<dots> \<le> reload_count m s + 1" by (simp add: credit_def)
  finally show ?thesis .
qed

section \<open>Runs preserve the invariant\<close>

lemma init_state_inv: "registry_inv init_state"
  by (simp add: registry_inv_def init_state_def)

lemma run_event_inv:
  assumes "registry_inv s"
  shows "registry_inv (run_event env e s)"
proof (cases e)
  case (ClassStmt mcs name bases dict)
  with class_stmt_inv[OF surjective_pairing assms] show ?thesis by simp
next
  case Sigio
  with handle_sigio_inv[OF assms] show ?thesis by simp
next
  case (WatchModule m)
  with watch_module_distinct[OF surjective_pairing] watch_module_frame(1)[OF surjective_pairing] assms
  show ?thesis by (simp add: registry_inv_def)
next
  case (WatchDir d)
  with watch_dir_frame(1,2)[OF surjective_pairing] assms show ?thesis
    by (simp add: registry_inv_def)
next
  case (Reclaim b)
  with assms show ?thesis by (simp add: weak_discard_def registry_inv_def)
qed

lemma run_events_inv:
  "registry_inv s \<Longrightarrow> registry_inv (run_events evs s)"
  by (induction evs s rule: run_events.induct) (simp_all add: run_event_inv)

text \<open>Only the reclamation of its class object removes an entry of the class table.\<close>

lemma run_event_keeps_registered:
  assumes "reloadable_classes s key = Some a" and "e \<noteq> Reclaim a"
  shows "reloadable_classes (run_event env e s) key = Some a"
proof (cases e)
  case (ClassStmt mcs name bases dict)
  with class_stmt_keeps_registered[OF surjective_pairing assms(1)] show ?thesis by simp
next
  case Sigio
  with handle_sigio_keeps_registered[OF assms(1)] show ?thesis by simp
next
  case (WatchModule m)
  with watch_module_frame(1)[OF surjective_pairing] assms(1) show ?thesis by simp
next
  case (WatchDir d)
  with watch_dir_frame(1)[OF surjective_pairing] assms(1) show ?thesis by simp
next
  case (Reclaim b)
  with assms show ?thesis by (simp add: weak_discard_def)
qed

lemma run_events_keeps_registered:
  "reloadable_classes s key = Some a \<Longrightarrow> Reclaim a \<notin> snd ` set evs \<Longrightarrow>
     reloadable_classes (run_events evs s) key = Some a"
proof (induction evs s rule: run_events.induct)
  case (1 s)
  then show ?case by simp
next
  case (2 env e evs s)
  from "2.prems"(2) have ne: "e \<noteq> Reclaim a" and rest: "Reclaim a \<notin> snd ` set evs"
    by (auto simp: image_iff)
  from "2.IH"[OF run_event_keeps_registered[OF "2.prems"(1) ne] rest] show ?case by simp
qed

section \<open>A subscription lasts\<close>

text \<open>
  Once a directory is in the directory table it stays there with its descriptor, and the
  handler is not installed again: the table is never empty any more.
\<close>

lemma watch_dir_subscribed_stays:
  assumes "watch_dir env d s = (r, s')" and "subscribed p fd n s"
  shows "subscribed p fd n s'"
  using assms
  by (auto simp: subscribed_def watch_dir_def Let_def update_conv' split: if_splits)

lemma watch_module_subscribed_stays:
  assumes "watch_module env m s = (r, s')" and "subscribed p fd n s"
  shows "subscribed p fd n s'"
proof (cases "module_source m")
  case (Inl e)
  with assms show ?thesis by (simp add: watch_module_def)
next
  case (Inr src)
  obtain r1 s1 where w: "watch_dir env (dirname_of src) s = (r1, s1)"
    by (cases "watch_dir env (dirname_of src) s")
  from watch_dir_subscribed_stays[OF w assms(2)] assms(1) Inr w show ?thesis
    by (cases r1; cases "stat_mtime env src") (auto simp: watch_module_def subscribed_def)
qed

lemma class_stmt_subscribed_stays:
  assumes "class_stmt env mcs name bases dict s = (r, s')" and "subscribed p fd n s"
  shows "subscribed p fd n s'"
  using assms(1)
proof (cases rule: class_stmt_cases)
  case unchanged
  with assms(2) show ?thesis by simp
next
  case plain
  with assms(2) show ?thesis by (simp add: subscribed_def type_new_frame)
next
  case (failed m r1)
  have "subscribed p fd n (snd (type_new mcs name bases dict s))"
    using assms(2) by (simp add: subscribed_def type_new_frame)
  from watch_module_subscribed_stays[OF failed this] show ?thesis .
next
  case (stored modl m r1 s2)
  have "subscribed p fd n (snd (type_new mcs name bases dict s))"
    using assms(2) by (simp add: subscribed_def type_new_frame)
  from watch_module_subscribed_stays[OF stored(4) this] show ?thesis
    by (simp add: subscribed_def stored(5))
next
  case (patched old_class)
  with assms(2) show ?thesis by (simp add: subscribed_def setattr_items_frame)
qed

lemma reload_subscribed_stays:
  assumes "reload env m s = (r, s')" and "subscribed p fd n s"
  shows "subscribed p fd n s'"
proof -
  let ?s0 = "s\<lparr>reloads := reloads s @ [(m, map_option fst (map_of (reloadable_modules s) m))]\<rparr>"
  have e: "exec_stmts env (module_code env m) ?s0 = (r, s')"
    using assms(1) by (simp add: reload_def)
  have i: "subscribed p fd n ?s0" using assms(2) by (simp add: subscribed_def)
  show ?thesis
    by (rule exec_stmts_preserves[where P = "subscribed p fd n", OF _ e i])
       (erule (1) class_stmt_subscribed_stays)
qed

lemma sigio_step_subscribed_stays:
  assumes "sigio_step env (m, b, d) s = (r, s')" and "subscribed p fd n s"
  shows "subscribed p fd n s'"
  using assms(1)
proof (cases rule: sigio_step_cases)
  case (reloaded src t r2 s2)
  have "subscribed p fd n
      (s\<lparr>reloadable_modules := AList.update m (t, d) (reloadable_modules s)\<rparr>)"
    using assms(2) by (simp add: subscribed_def)
  from reload_subscribed_stays[OF reloaded(4) this] reloaded(6) show ?thesis
    by (auto simp: subscribed_def)
qed (use assms(2) in simp_all)

lemma run_event_subscribed_stays:
  assumes "subscribed p fd n s"
  shows "subscribed p fd n (run_event env e s)"
proof (cases e)
  case (ClassStmt mcs name bases dict)
  with class_stmt_subscribed_stays[OF surjective_pairing assms] show ?thesis by simp
next
  case Sigio
  have "subscribed p fd n (snd (handle_sigio env s))"
    by (rule handle_sigio_preserves[where P = "subscribed p fd n", OF _ assms])
       (erule (1) sigio_step_subscribed_stays)
  with Sigio show ?thesis by simp
next
  case (WatchModule m)
  with watch_module_subscribed_stays[OF surjective_pairing assms] show ?thesis by simp
next
  case (WatchDir d)
  with watch_dir_subscribed_stays[OF surjective_pairing assms] show ?thesis by simp
next
  case (Reclaim b)
  with assms show ?thesis by (simp add: weak_discard_def subscribed_def)
qed

lemma run_events_subscribed_stays:
  "subscribed p fd n s \<Longrightarrow> subscribed p fd n (run_events evs s)"
  by (induction evs s rule: run_events.induct) (simp_all add: run_event_subscribed_stays)

section \<open>The example inputs, evaluated\<close>

lemmas example_defs = mod_foo_def mod_bar_def mod_baz_def body_v1_def body_v2_def body_bar_def
  body_baz_def env_a_def init_state_def class_stmt_def Reloadable_metaclass_new_def
  ReloMeta_new_def type_new_def watch_module_def watch_dir_def module_source_def splitext_def
  dirname_of_def endswith_def setattr_def settable_def Let_def

lemma module_source_foo: "module_source mod_foo = Inr ''/srv/app/foo.py''"
  by (simp add: mod_foo_def module_source_def splitext_def)

lemma dirname_foo: "dirname_of ''/srv/app/foo.py'' = ''/srv/app''"
  by (simp add: dirname_of_def)

lemma state_foo_eval:
  "state_foo =
     init_state\<lparr>reloadable_classes := [(''app.foo'', ''Foo'') \<mapsto> 0],
       reloadable_modules := [(mod_foo, 10, ''/srv/app'')],
       dir_fds := [(''/srv/app'', 3)],
       heap := (heap init_state)(0 := \<lparr>cls_meta = Reloadable_metaclass, cls_name = ''Foo'',
          cls_bases = [], cls_dict = map_of body_v1\<rparr>),
       next_addr := 1, next_fd := 4, sigio_installs := 1\<rparr>"
  by (simp add: state_foo_def example_defs)

lemma state_two_eval:
  "state_two =
     init_state\<lparr>reloadable_classes := [(''app.foo'', ''Foo'') \<mapsto> 0, (''lib.baz'', ''Baz'') \<mapsto> 1],
       reloadable_modules := [(mod_foo, 10, ''/srv/app''), (mod_baz, 10, ''/srv/lib'')],
       dir_fds := [(''/srv/app'', 3), (''/srv/lib'', 4)],
       heap := (heap init_state)
         (0 := \<lparr>cls_meta = Reloadable_metaclass, cls_name = ''Foo'',
                 cls_bases = [], cls_dict = map_of body_v1\<rparr>,
          1 := \<lparr>cls_meta = Reloadable_metaclass, cls_name = ''Baz'',
                 cls_bases = [], cls_dict = map_of body_baz\<rparr>),
       next_addr := 2, next_fd := 5, sigio_installs := 1\<rparr>"
  by (simp add: state_two_def example_defs)

lemma state_foo_inv: "registry_inv state_foo"
  unfolding state_foo_def by (rule run_events_inv[OF init_state_inv])

lemma state_foo_registered: "reloadable_classes state_foo (''app.foo'', ''Foo'') = Some 0"
  by (simp add: state_foo_eval)

section \<open>Redefinition of a registered class\<close>

text \<open>
  C1, as stated: under a registered identity every member of the new class body is set on
  the stored object and that object is returned. Not for every body: \<^verbatim>\<open>setattr\<close> raises for
  a name that the runtime does not let a class assign. The third body of \<^verbatim>\<open>Foo\<close> assigns
  \<^verbatim>\<open>__dict__\<close>: the definition raises \<^verbatim>\<open>AttributeError\<close> instead of returning the class, with
  \<^verbatim>\<open>a\<close> already patched and the member \<^verbatim>\<open>c\<close> of the body never set.
\<close>

theorem redefinition_sets_every_member_counterexample:
  "reloadable_classes state_foo (''app.foo'', ''Foo'') = Some 0
   \<and> map_of body_v3 ''c'' = Some (Obj 4)
   \<and> fst (Reloadable_metaclass_new env_a Reloadable_metaclass ''Foo'' [] body_v3 state_foo)
        = Inl AttributeError
   \<and> cls_dict (heap (snd (Reloadable_metaclass_new env_a Reloadable_metaclass ''Foo'' [] body_v3
         state_foo)) 0) ''a'' = Some (Obj 3)
   \<and> cls_dict (heap (snd (Reloadable_metaclass_new env_a Reloadable_metaclass ''Foo'' [] body_v3
         state_foo)) 0) ''c'' = None"
  by (simp add: state_foo_eval body_v3_def example_defs)

text \<open>
  C1, amended: in a state the process can reach, when the identity \<open>(modl, name)\<close> of a class
  statement is already in the class table, \<^verbatim>\<open>__new__\<close> returns the stored object itself
  exactly when the runtime accepts the assignment of every member of the new class body,
  and then every member \<open>(k, v)\<close> of the body is set on that object. Whether or not an
  assignment is refused, no class object is allocated (\<open>next_addr\<close> stays), every other
  object of the store is as before, and the three tables are unchanged. So a reference
  taken before the redefinition, being the address \<open>old_class\<close>, finds the patched members.
\<close>

theorem redefinition_patches_old_class:
  fixes env :: env and mcs :: metacls and bases :: "addr list"
  assumes "registry_inv s"
    and "map_of dict ''__module__'' = Some (Str modl)"
    and "reloadable_classes s (modl, name) = Some old_class"
    and "distinct (map fst dict)"
  defines "r \<equiv> Reloadable_metaclass_new env mcs name bases dict s"
  shows "(fst r = Inr old_class \<longleftrightarrow> settable env dict)
       \<and> (settable env dict \<longrightarrow>
            (\<forall>(k, v) \<in> set dict. cls_dict (heap (snd r) old_class) k = Some v))
       \<and> next_addr (snd r) = next_addr s
       \<and> (\<forall>a. a \<noteq> old_class \<longrightarrow> heap (snd r) a = heap s a)
       \<and> reloadable_classes (snd r) = reloadable_classes s
       \<and> reloadable_modules (snd r) = reloadable_modules s
       \<and> dir_fds (snd r) = dir_fds s"
proof -
  obtain r1 s1 where m: "setattr_items env old_class dict s = (r1, s1)"
    by (cases "setattr_items env old_class dict s")
  from assms(1,3) have nf: "\<not> foundational modl name"
    by (auto simp: registry_inv_def)
  then have r: "r = (case r1 of Inl e \<Rightarrow> (Inl e, s1) | Inr u \<Rightarrow> (Inr old_class, s1))"
    using assms(2,3) m
    by (auto simp: r_def Reloadable_metaclass_new_def foundational_def split: sum.splits)
  have s1: "snd r = snd (setattr_items env old_class dict s)"
    using m by (simp add: r split: sum.splits)
  have ok: "fst r = Inr old_class \<longleftrightarrow> settable env dict"
    using setattr_items_returns[of env old_class dict s] m
    by (auto simp: r split: sum.splits)
  show ?thesis
    using assms(4) ok
    by (auto simp: s1 setattr_items_frame setattr_items_other setattr_items_present)
qed

text \<open>
  Witness for C1: \<^verbatim>\<open>Foo\<close> of \<^verbatim>\<open>app.foo\<close> is redefined with its second body, which the runtime
  accepts; the object at address 0 is returned and now has the new \<^verbatim>\<open>a\<close>.
\<close>

theorem redefinition_patches_old_class_witness:
  "settable env_a body_v2
   \<and> fst (Reloadable_metaclass_new env_a Reloadable_metaclass ''Foo'' [] body_v2 state_foo) = Inr 0
   \<and> cls_dict (heap (snd (Reloadable_metaclass_new env_a Reloadable_metaclass ''Foo'' [] body_v2
         state_foo)) 0) ''a'' = Some (Obj 3)
   \<and> next_addr (snd (Reloadable_metaclass_new env_a Reloadable_metaclass ''Foo'' [] body_v2
         state_foo)) = 1
   \<and> reloadable_classes (snd (Reloadable_metaclass_new env_a Reloadable_metaclass ''Foo'' []
         body_v2 state_foo)) (''app.foo'', ''Foo'') = Some 0"
proof -
  have m: "map_of body_v2 ''__module__'' = Some (Str ''app.foo'')"
    and d: "distinct (map fst body_v2)"
    by (simp_all add: body_v2_def)
  have ok: "settable env_a body_v2"
    by (simp add: settable_def body_v2_def env_a_def)
  from redefinition_patches_old_class[OF state_foo_inv m state_foo_registered d,
      of env_a Reloadable_metaclass "[]"] ok
  show ?thesis by (simp add: body_v2_def state_foo_eval)
qed

text \<open>
  C2: when a registered class is redefined, every member of the old class object whose
  name is not a key of the new class body has the value it had, and no member of the old
  object disappears: the merge only adds and overwrites.
\<close>

theorem redefinition_keeps_other_members:
  fixes env :: env and mcs :: metacls and bases :: "addr list"
  assumes "registry_inv s"
    and "map_of dict ''__module__'' = Some (Str modl)"
    and "reloadable_classes s (modl, name) = Some old_class"
  defines "s' \<equiv> snd (Reloadable_metaclass_new env mcs name bases dict s)"
  shows "(\<forall>k. k \<notin> fst ` set dict \<longrightarrow>
            cls_dict (heap s' old_class) k = cls_dict (heap s old_class) k)
       \<and> (\<forall>k. cls_dict (heap s old_class) k \<noteq> None \<longrightarrow> cls_dict (heap s' old_class) k \<noteq> None)"
proof -
  from assms(1,3) have nf: "\<not> foundational modl name"
    by (auto simp: registry_inv_def)
  then have r: "s' = snd (setattr_items env old_class dict s)"
    using assms(2,3)
    by (auto simp: s'_def Reloadable_metaclass_new_def foundational_def
        split: prod.splits sum.splits)
  show ?thesis
    by (simp add: r setattr_items_absent setattr_items_keeps)
qed

text \<open>
  Witness for C2: the second body of \<^verbatim>\<open>Foo\<close> has no \<^verbatim>\<open>b\<close>; after the redefinition the object
  still has the \<^verbatim>\<open>b\<close> of the first body.
\<close>

theorem redefinition_keeps_other_members_witness:
  "cls_dict (heap state_foo 0) ''b'' = Some (Obj 2)
   \<and> ''b'' \<notin> fst ` set body_v2
   \<and> cls_dict (heap (snd (Reloadable_metaclass_new env_a Reloadable_metaclass ''Foo'' [] body_v2
         state_foo)) 0) ''b'' = Some (Obj 2)"
proof -
  have m: "map_of body_v2 ''__module__'' = Some (Str ''app.foo'')"
    by (simp add: body_v2_def)
  have b: "''b'' \<notin> fst ` set body_v2" by (simp add: body_v2_def)
  have o: "cls_dict (heap state_foo 0) ''b'' = Some (Obj 2)"
    by (simp add: state_foo_eval body_v1_def)
  from redefinition_keeps_other_members[OF state_foo_inv m state_foo_registered,
      of env_a Reloadable_metaclass "[]"] b o
  show ?thesis by simp
qed

section \<open>First sighting\<close>



section \<open>The base class itself\<close>



section \<open>The life of a class identity\<close>

text \<open>
  C5, as stated: once registered, an identity stays registered for the rest of the process.
  It does not: the class table holds its values weakly. \<^verbatim>\<open>Foo\<close> is registered at address 0;
  when that class object is reclaimed the entry is gone, and the next definition of \<^verbatim>\<open>Foo\<close>
  takes the first-sighting branch again and returns a new object, at address 1.
\<close>

theorem registered_forever_counterexample:
  "reloadable_classes state_foo (''app.foo'', ''Foo'') = Some 0
   \<and> reloadable_classes (run_events [(env_a, Reclaim 0)] state_foo) (''app.foo'', ''Foo'') = None
   \<and> fst (Reloadable_metaclass_new env_a Reloadable_metaclass ''Foo'' [] body_v2
             (run_events [(env_a, Reclaim 0)] state_foo)) = Inr 1"
  by (simp add: state_foo_eval weak_discard_def example_defs)

text \<open>
  C5, amended: an identity registered with the class object \<open>a\<close> stays registered with \<open>a\<close>
  through every run of class statements, signal deliveries and calls of \<^verbatim>\<open>watch_module\<close> and
  \<^verbatim>\<open>watch_dir\<close>, whatever the files do meanwhile, as long as \<open>a\<close> itself is not reclaimed;
  and every class statement under that identity after such a run takes the merge branch:
  its result is that of the merge loop on \<open>a\<close>, so it returns \<open>a\<close> when the runtime accepts
  the assignments, and it allocates no object. It merges, it never registers again.
\<close>

theorem registered_until_reclaimed:
  fixes env :: env and mcs :: metacls and bases :: "addr list"
  assumes "registry_inv s"
    and "reloadable_classes s (modl, name) = Some a"
    and "Reclaim a \<notin> snd ` set evs"
    and "map_of dict ''__module__'' = Some (Str modl)"
  defines "s' \<equiv> run_events evs s"
  shows "reloadable_classes s' (modl, name) = Some a
       \<and> Reloadable_metaclass_new env mcs name bases dict s' =
           (case setattr_items env a dict s' of
              (Inl e, s1) \<Rightarrow> (Inl e, s1)
            | (Inr u, s1) \<Rightarrow> (Inr a, s1))
       \<and> (settable env dict \<longrightarrow> fst (Reloadable_metaclass_new env mcs name bases dict s') = Inr a)
       \<and> next_addr (snd (Reloadable_metaclass_new env mcs name bases dict s')) = next_addr s'"
proof -
  have reg: "reloadable_classes s' (modl, name) = Some a"
    unfolding s'_def by (rule run_events_keeps_registered[OF assms(2,3)])
  have "registry_inv s'" unfolding s'_def by (rule run_events_inv[OF assms(1)])
  with reg have "\<not> foundational modl name" by (auto simp: registry_inv_def)
  then have m: "Reloadable_metaclass_new env mcs name bases dict s' =
      (case setattr_items env a dict s' of
         (Inl e, s1) \<Rightarrow> (Inl e, s1)
       | (Inr u, s1) \<Rightarrow> (Inr a, s1))"
    using assms(4) reg by (auto simp: Reloadable_metaclass_new_def foundational_def)
  obtain r1 s1 where l: "setattr_items env a dict s' = (r1, s1)"
    by (cases "setattr_items env a dict s'")
  have "next_addr s1 = next_addr s'"
    using setattr_items_frame(4)[of env a dict s'] l by simp
  moreover have "settable env dict \<Longrightarrow> r1 = Inr ()"
    using setattr_items_returns[of env a dict s'] l by simp
  ultimately show ?thesis
    using reg m l by (cases r1) auto
qed

text \<open>
  Witness for the amended C5: after a subscription, a signal that reloads the edited
  \<^verbatim>\<open>foo.py\<close>, the definition of another class and the reclamation of that other class, \<^verbatim>\<open>Foo\<close>
  is still registered at address 0 and a further definition returns that object.
\<close>

theorem registered_until_reclaimed_witness:
  "reloadable_classes
     (run_events [(env_a, WatchDir ''/srv/lib''), (env_edited, Sigio),
                  (env_a, ClassStmt ReloMeta ''Baz'' [] body_baz), (env_a, Reclaim 1)] state_foo)
     (''app.foo'', ''Foo'') = Some 0
   \<and> fst (Reloadable_metaclass_new env_a Reloadable_metaclass ''Foo'' [] body_v2
       (run_events [(env_a, WatchDir ''/srv/lib''), (env_edited, Sigio),
                  (env_a, ClassStmt ReloMeta ''Baz'' [] body_baz), (env_a, Reclaim 1)] state_foo))
     = Inr 0"
proof -
  have m: "map_of body_v2 ''__module__'' = Some (Str ''app.foo'')"
    by (simp add: body_v2_def)
  have r: "Reclaim 0 \<notin> snd ` set [(env_a, WatchDir ''/srv/lib''), (env_edited, Sigio),
                  (env_a, ClassStmt ReloMeta ''Baz'' [] body_baz), (env_a, Reclaim 1)]"
    by simp
  have ok: "settable env_a body_v2"
    by (simp add: settable_def body_v2_def env_a_def)
  from registered_until_reclaimed[OF state_foo_inv state_foo_registered r m,
      of env_a Reloadable_metaclass "[]"] ok
  show ?thesis by blast
qed

section \<open>Change detection\<close>

text \<open>
  What one step of the loop decides, for a module \<open>m\<close> with a source file: when the file
  has an mtime \<open>t\<close> strictly greater than the stored one, the step reloads \<open>m\<close> exactly once,
  and at the moment of the call of \<^verbatim>\<open>reload\<close> the table already holds \<open>t\<close> for \<open>m\<close>; when the
  mtime cannot be read or is not greater than the stored one, the step leaves the whole
  state as it is.
\<close>

lemma sigio_step_reloads_newer:
  assumes "module_source m = Inr src" and "stat_mtime env src = Some t" and "mtime < t"
  shows "fst (sigio_step env (m, mtime, d) s) = Inr ()"
    and "reloads (snd (sigio_step env (m, mtime, d) s)) = reloads s @ [(m, Some t)]"
proof -
  obtain r s' where st: "sigio_step env (m, mtime, d) s = (r, s')"
    by (cases "sigio_step env (m, mtime, d) s")
  from st have "r = Inr () \<and> reloads s' = reloads s @ [(m, Some t)]"
  proof (cases rule: sigio_step_cases)
    case (reloaded src' t' r2 s2)
    with assms have "t' = t" by simp
    with reload_reloads[OF reloaded(4)] reloaded(5,6) show ?thesis
      by (auto simp: update_conv')
  qed (use assms in auto)
  with st show "fst (sigio_step env (m, mtime, d) s) = Inr ()"
    and "reloads (snd (sigio_step env (m, mtime, d) s)) = reloads s @ [(m, Some t)]"
    by simp_all
qed

lemma sigio_step_skips_unchanged:
  assumes "module_source m = Inr src" and "\<not> (\<exists>t. stat_mtime env src = Some t \<and> mtime < t)"
  shows "sigio_step env (m, mtime, d) s = (Inr (), s)"
  using assms by (auto simp: sigio_step_def split: option.splits)

text \<open>
  C6: during a pass a registered source is re-evaluated exactly when its file is newer
  than the stored mtime. Each step decides so, and two passes over unchanged files reload
  a module at most once (\<open>sigio_step_reloads_newer\<close>, \<open>sigio_step_skips_unchanged\<close>,
  \<open>two_passes\<close>), but a pass does not reach every registered source: \<^verbatim>\<open>app.foo\<close> and \<^verbatim>\<open>lib.baz\<close>
  are registered with mtime 10 and both files now have mtime 20; reloading \<^verbatim>\<open>app.foo\<close>
  registers the module \<^verbatim>\<open>app.bar\<close>, the iteration over the grown table raises, and the pass
  ends with \<^verbatim>\<open>lib.baz\<close> not re-evaluated and its stored mtime still 10.
\<close>

theorem newer_source_not_reloaded:
  "map_of (reloadable_modules state_two) mod_baz = Some (10, ''/srv/lib'')
   \<and> module_source mod_baz = Inr ''/srv/lib/baz.py''
   \<and> stat_mtime env_grow ''/srv/lib/baz.py'' = Some 20
   \<and> reload_count mod_foo (snd (handle_sigio env_grow state_two)) = 1
   \<and> reload_count mod_baz (snd (handle_sigio env_grow state_two)) = 0
   \<and> stale env_grow (snd (handle_sigio env_grow state_two)) mod_baz"
  by (simp add: state_two_eval handle_sigio_def sigio_step_def reload_def env_grow_def
        reload_count_def stale_def example_defs)

section \<open>Failures during a pass\<close>

text \<open>
  What one step of the loop contains: for a module that has a \<^verbatim>\<open>__file__\<close> the step never
  raises; when the mtime cannot be read the state is unchanged, so the stored mtime stays
  and nothing is printed; when the re-evaluation raises, the exception is printed and the
  step returns normally.
\<close>

lemma sigio_step_contains:
  assumes "module_source m = Inr src"
  shows "fst (sigio_step env (m, b, d) s) = Inr ()
       \<and> (stat_mtime env src = None \<longrightarrow> sigio_step env (m, b, d) s = (Inr (), s))
       \<and> (\<forall>t e s2. stat_mtime env src = Some t \<and> b < t \<and>
            reload env m (s\<lparr>reloadable_modules := AList.update m (t, d) (reloadable_modules s)\<rparr>)
              = (Inl e, s2) \<longrightarrow>
            sigio_step env (m, b, d) s = (Inr (), s2\<lparr>printed := printed s2 @ [e]\<rparr>))"
  using assms
  by (auto simp: sigio_step_def split: option.splits sum.splits prod.splits)

text \<open>
  C7: every failure of a pass stays inside \<^verbatim>\<open>handle_sigio\<close>, and the remaining sources are
  still processed. The steps do contain the failures of \<^verbatim>\<open>os.stat\<close> and of \<^verbatim>\<open>reload\<close>, but the
  iteration itself raises: \<^verbatim>\<open>app.foo\<close> and \<^verbatim>\<open>lib.baz\<close> are watched and both files are newer
  than stored; the new \<^verbatim>\<open>foo.py\<close> imports \<^verbatim>\<open>app.bar\<close>, whose class \<^verbatim>\<open>Bar\<close> is seen for the first
  time, so \<^verbatim>\<open>watch_module\<close> adds a key to the table that is being iterated. The next step of
  the iteration raises \<^verbatim>\<open>RuntimeError\<close>, which leaves the handler, and \<^verbatim>\<open>lib.baz\<close> is never
  reloaded although its file is newer (20) than its stored mtime (10).
\<close>

theorem sigio_runtime_error_escapes:
  "fst (handle_sigio env_grow state_two) = Inl RuntimeError
   \<and> reloads (snd (handle_sigio env_grow state_two)) = [(mod_foo, Some 20)]
   \<and> map fst (reloadable_modules (snd (handle_sigio env_grow state_two)))
        = [mod_foo, mod_baz, mod_bar]
   \<and> stat_mtime env_grow ''/srv/lib/baz.py'' = Some 20
   \<and> map_of (reloadable_modules (snd (handle_sigio env_grow state_two))) mod_baz
        = Some (10, ''/srv/lib'')"
  by (simp add: state_two_eval handle_sigio_def sigio_step_def reload_def env_grow_def
        example_defs)

section \<open>Watching a directory twice\<close>

text \<open>
  C8, as stated: for every directory path a second call of \<^verbatim>\<open>watch_dir\<close> opens no second
  handle and installs no second handler. Not after a call that failed: the handler is
  installed before the directory is opened, and a failing call leaves the table empty.
  Two calls for the missing \<^verbatim>\<open>/srv/nope\<close> install the handler twice; two calls for \<^verbatim>\<open>/srv/nfs\<close>,
  where the notification request fails, also open two descriptors (3 and 4, so that the
  next one is 5), and the table is still empty.
\<close>

theorem watch_dir_twice_counterexample:
  "fst (watch_dir env_a ''/srv/nope'' init_state) = Inl OSError
   \<and> sigio_installs (snd (watch_dir env_a ''/srv/nope'' init_state)) = 1
   \<and> sigio_installs
        (snd (watch_dir env_a ''/srv/nope'' (snd (watch_dir env_a ''/srv/nope'' init_state)))) = 2
   \<and> fst (watch_dir env_a ''/srv/nfs'' init_state) = Inl IOError
   \<and> next_fd (snd (watch_dir env_a ''/srv/nfs'' init_state)) = 4
   \<and> next_fd
        (snd (watch_dir env_a ''/srv/nfs'' (snd (watch_dir env_a ''/srv/nfs'' init_state)))) = 5
   \<and> sigio_installs
        (snd (watch_dir env_a ''/srv/nfs'' (snd (watch_dir env_a ''/srv/nfs'' init_state)))) = 2
   \<and> dir_fds
        (snd (watch_dir env_a ''/srv/nfs'' (snd (watch_dir env_a ''/srv/nfs'' init_state)))) = []"
  by (simp add: watch_dir_def env_a_def init_state_def)

text \<open>
  C8, amended: watching is idempotent once it has succeeded. After a call of \<^verbatim>\<open>watch_dir\<close>
  that returned, a second call with a path that has the same absolute path returns at
  once and leaves the whole state as it is: the directory table, the descriptors and the
  count of handler installations. A directory that is in the table stays in it with its
  descriptor through every later run of the process, and during such a run the handler is
  never installed again. One call installs the handler exactly when it finds the table
  empty, opens a descriptor exactly when the directory is not in the table and can be
  opened, returns exactly when the directory is in the table or can be opened and
  subscribed, and leaves the table as it was when it raises.
\<close>

theorem watch_dir_idempotent:
  "(fst (watch_dir env d s) = Inr () \<and> abspath env d' = abspath env d \<longrightarrow>
      watch_dir env d' (snd (watch_dir env d s)) = (Inr (), snd (watch_dir env d s)))
   \<and> (map_of (dir_fds s) (abspath env d) = Some fd \<longrightarrow>
        watch_dir env d s = (Inr (), s)
        \<and> map_of (dir_fds (run_events evs s)) (abspath env d) = Some fd
        \<and> sigio_installs (run_events evs s) = sigio_installs s)
   \<and> sigio_installs (snd (watch_dir env d s)) =
        (if dir_fds s = [] then Suc (sigio_installs s) else sigio_installs s)
   \<and> next_fd (snd (watch_dir env d s)) =
        (if map_of (dir_fds s) (abspath env d) = None \<and> can_open env (abspath env d)
         then Suc (next_fd s) else next_fd s)
   \<and> (fst (watch_dir env d s) = Inr () \<longleftrightarrow>
        map_of (dir_fds s) (abspath env d) \<noteq> None
        \<or> can_open env (abspath env d) \<and> can_notify env (abspath env d))
   \<and> (fst (watch_dir env d s) \<noteq> Inr () \<longrightarrow> dir_fds (snd (watch_dir env d s)) = dir_fds s)"
proof -
  have again: "watch_dir env d' (snd (watch_dir env d s)) = (Inr (), snd (watch_dir env d s))"
    if "fst (watch_dir env d s) = Inr ()" and "abspath env d' = abspath env d"
  proof -
    from that(1) have "watch_dir env d s = (Inr (), snd (watch_dir env d s))"
      by (metis prod.collapse)
    from watch_dir_subscribed[OF this] that(2) show ?thesis
      by (simp add: watch_dir_known)
  qed
  have lasts: "watch_dir env d s = (Inr (), s)
      \<and> map_of (dir_fds (run_events evs s)) (abspath env d) = Some fd
      \<and> sigio_installs (run_events evs s) = sigio_installs s"
    if "map_of (dir_fds s) (abspath env d) = Some fd"
  proof -
    from that have "subscribed (abspath env d) fd (sigio_installs s) s"
      by (simp add: subscribed_def)
    from run_events_subscribed_stays[OF this, of evs] that show ?thesis
      by (simp add: subscribed_def watch_dir_known)
  qed
  have installs: "sigio_installs (snd (watch_dir env d s)) =
      (if dir_fds s = [] then Suc (sigio_installs s) else sigio_installs s)"
    by (auto simp: watch_dir_def Let_def)
  have fds: "next_fd (snd (watch_dir env d s)) =
      (if map_of (dir_fds s) (abspath env d) = None \<and> can_open env (abspath env d)
       then Suc (next_fd s) else next_fd s)"
    by (auto simp: watch_dir_def Let_def)
  have returns: "fst (watch_dir env d s) = Inr () \<longleftrightarrow>
      map_of (dir_fds s) (abspath env d) \<noteq> None
      \<or> can_open env (abspath env d) \<and> can_notify env (abspath env d)"
    by (auto simp: watch_dir_def Let_def)
  have fails: "dir_fds (snd (watch_dir env d s)) = dir_fds s" if "fst (watch_dir env d s) \<noteq> Inr ()"
    using that by (auto simp: watch_dir_def Let_def split: if_splits)
  from again lasts installs fds returns fails show ?thesis by blast
qed

text \<open>
  Witness for the amended C8: the first call in a fresh process subscribes \<^verbatim>\<open>/srv/app\<close> with
  descriptor 3 and installs the handler; the second call returns the same state, and a pass
  of the handler and the first definition of \<^verbatim>\<open>Baz\<close> leave the subscription and the count.
\<close>

theorem watch_dir_idempotent_witness:
  "fst (watch_dir env_a ''/srv/app'' init_state) = Inr ()
   \<and> dir_fds (snd (watch_dir env_a ''/srv/app'' init_state)) = [(''/srv/app'', 3)]
   \<and> sigio_installs (snd (watch_dir env_a ''/srv/app'' init_state)) = 1
   \<and> next_fd (snd (watch_dir env_a ''/srv/app'' init_state)) = 4
   \<and> watch_dir env_a ''/srv/app'' (snd (watch_dir env_a ''/srv/app'' init_state)) =
        (Inr (), snd (watch_dir env_a ''/srv/app'' init_state))
   \<and> map_of (dir_fds (run_events [(env_edited, Sigio), (env_a, ClassStmt ReloMeta ''Baz'' [] body_baz)]
        state_foo)) ''/srv/app'' = Some 3
   \<and> sigio_installs (run_events [(env_edited, Sigio), (env_a, ClassStmt ReloMeta ''Baz'' [] body_baz)]
        state_foo) = 1"
proof -
  have e: "watch_dir env_a ''/srv/app'' init_state =
      (Inr (), init_state\<lparr>sigio_installs := 1, next_fd := 4, dir_fds := [(''/srv/app'', 3)]\<rparr>)"
    by (simp add: watch_dir_def env_a_def init_state_def)
  have a: "abspath env_a ''/srv/app'' = ''/srv/app''" by (simp add: env_a_def)
  have f: "map_of (dir_fds state_foo) (abspath env_a ''/srv/app'') = Some 3"
    "sigio_installs state_foo = 1"
    by (simp_all add: state_foo_eval a)
  have r: "fst (watch_dir env_a ''/srv/app'' init_state) = Inr () \<and>
      abspath env_a ''/srv/app'' = abspath env_a ''/srv/app''"
    by (simp add: e)
  from watch_dir_idempotent[where env = env_a and d = "''/srv/app''" and s = init_state
      and d' = "''/srv/app''", THEN conjunct1, rule_format, OF r]
  have twice: "watch_dir env_a ''/srv/app'' (snd (watch_dir env_a ''/srv/app'' init_state)) =
        (Inr (), snd (watch_dir env_a ''/srv/app'' init_state))" .
  from watch_dir_idempotent[where env = env_a and d = "''/srv/app''" and s = state_foo
      and fd = 3 and evs = "[(env_edited, Sigio), (env_a, ClassStmt ReloMeta ''Baz'' [] body_baz)]",
      THEN conjunct2, THEN conjunct1, rule_format, OF f(1)]
  have lasts: "map_of (dir_fds (run_events [(env_edited, Sigio),
          (env_a, ClassStmt ReloMeta ''Baz'' [] body_baz)] state_foo)) ''/srv/app'' = Some 3
      \<and> sigio_installs (run_events [(env_edited, Sigio),
          (env_a, ClassStmt ReloMeta ''Baz'' [] body_baz)] state_foo) = 1"
    using a f(2) by simp
  have first: "fst (watch_dir env_a ''/srv/app'' init_state) = Inr ()
      \<and> dir_fds (snd (watch_dir env_a ''/srv/app'' init_state)) = [(''/srv/app'', 3)]
      \<and> sigio_installs (snd (watch_dir env_a ''/srv/app'' init_state)) = 1
      \<and> next_fd (snd (watch_dir env_a ''/srv/app'' init_state)) = 4"
    by (simp add: e)
  from first twice lasts show ?thesis by blast
qed

section \<open>The two metaclasses agree\<close>

text \<open>
  C9: for every metaclass argument, name, bases and class body and every state, the
  \<^verbatim>\<open>__new__\<close> of the metaclass nested in \<^verbatim>\<open>Reloadable\<close> and \<^verbatim>\<open>ReloMeta.__new__\<close> return the same
  result (the same class object or the same exception) and leave the same state: the same
  class table, module table, directory table and store.
\<close>

theorem metaclasses_agree:
  "Reloadable_metaclass_new env mcs name bases dict s = ReloMeta_new env mcs name bases dict s"
  unfolding Reloadable_metaclass_new_def ReloMeta_new_def by (rule refl)

text \<open>Witness for C9: the first definition of \<^verbatim>\<open>Foo\<close>, through either \<^verbatim>\<open>__new__\<close>.\<close>

theorem metaclasses_agree_witness:
  "fst (ReloMeta_new env_a ReloMeta ''Foo'' [] body_v1 init_state) = Inr 0
   \<and> Reloadable_metaclass_new env_a ReloMeta ''Foo'' [] body_v1 init_state =
       ReloMeta_new env_a ReloMeta ''Foo'' [] body_v1 init_state"
proof -
  have "fst (ReloMeta_new env_a ReloMeta ''Foo'' [] body_v1 init_state) = Inr 0"
    by (simp add: example_defs)
  with metaclasses_agree[of env_a ReloMeta "''Foo''" "[]" body_v1 init_state]
  show ?thesis by simp
qed

section \<open>A failing registration\<close>

text \<open>
  C10: when the source file of the module cannot be read by \<^verbatim>\<open>os.stat\<close> while its directory
  is watched already or can be subscribed, \<^verbatim>\<open>watch_module\<close> raises \<^verbatim>\<open>OSError\<close> and the module
  table is as before, but the state is the one \<^verbatim>\<open>watch_dir\<close> left: the directory is
  in the directory table, and when that table was empty the call has added the entry and
  installed the handler.
\<close>

theorem watch_module_stat_failure:
  fixes env :: env and s :: state
  assumes "module_source m = Inr source"
    and "stat_mtime env source = None"
    and "fst (watch_dir env (dirname_of source) s) = Inr ()"
  defines "r \<equiv> watch_module env m s"
  shows "fst r = Inl OSError
       \<and> reloadable_modules (snd r) = reloadable_modules s
       \<and> snd r = snd (watch_dir env (dirname_of source) s)
       \<and> map_of (dir_fds (snd r)) (abspath env (dirname_of source)) \<noteq> None
       \<and> (dir_fds s = [] \<longrightarrow>
            dir_fds (snd r) = [(abspath env (dirname_of source), next_fd s)]
            \<and> sigio_installs (snd r) = Suc (sigio_installs s))"
proof -
  obtain s1 where w: "watch_dir env (dirname_of source) s = (Inr (), s1)"
    using assms(3) by (metis prod.collapse)
  have r: "r = (Inl OSError, s1)"
    using assms(1,2) w by (simp add: r_def watch_module_def)
  have "dir_fds s = [] \<Longrightarrow>
      dir_fds s1 = [(abspath env (dirname_of source), next_fd s)] \<and>
      sigio_installs s1 = Suc (sigio_installs s)"
    using w by (auto simp: watch_dir_def Let_def split: if_splits)
  then show ?thesis
    using watch_dir_frame(2)[OF w] watch_dir_subscribed[OF w] w by (simp add: r)
qed

text \<open>
  Witness for C10: only the compiled file of \<^verbatim>\<open>app.foo\<close> is installed. In a fresh process
  \<^verbatim>\<open>watch_module\<close> raises, the module table stays empty, and \<^verbatim>\<open>/srv/app\<close> is subscribed with
  the handler installed.
\<close>

theorem watch_module_stat_failure_witness:
  "fst (watch_module env_missing mod_foo init_state) = Inl OSError
   \<and> reloadable_modules (snd (watch_module env_missing mod_foo init_state)) = []
   \<and> dir_fds (snd (watch_module env_missing mod_foo init_state)) = [(''/srv/app'', 3)]
   \<and> sigio_installs (snd (watch_module env_missing mod_foo init_state)) = 1"
proof -
  have st: "stat_mtime env_missing ''/srv/app/foo.py'' = None" by (simp add: env_missing_def)
  have wde: "watch_dir env_missing ''/srv/app'' init_state =
      (Inr (), init_state\<lparr>sigio_installs := 1, next_fd := 4, dir_fds := [(''/srv/app'', 3)]\<rparr>)"
    by (simp add: watch_dir_def env_missing_def env_a_def init_state_def)
  then have wd: "fst (watch_dir env_missing (dirname_of ''/srv/app/foo.py'') init_state) = Inr ()"
    by (simp add: dirname_foo)
  have i: "dir_fds init_state = []" "reloadable_modules init_state = []"
    "next_fd init_state = 3" "sigio_installs init_state = 0"
    by (simp_all add: init_state_def)
  have a: "abspath env_missing = (\<lambda>p. p)" by (simp add: env_missing_def env_a_def)
  from watch_module_stat_failure[OF module_source_foo st wd]
  show ?thesis by (simp add: i a dirname_foo wde)
qed

end
